theory Spec2Isabelle
  imports Complex_Main "HOL-Library.Multiset"
begin

section \<open>Shared data model (memory\_types.go)\<close>

text \<open>
  Go's \<open>float64\<close> is modelled by \<open>real\<close>, \<open>int64\<close> and \<open>int\<close> by \<open>int\<close> (the one
  subtraction of timestamps is wrapped to 64 bits), \<open>string\<close> by a list of bytes.  A value of
  type \<open>interface{}\<close> that came out of \<open>json.Unmarshal\<close> is a \<open>jsonv\<close>; a
  \<open>map[string]interface{}\<close> is a finite map on strings.
\<close>

datatype jsonv = JString string | JNumber real | JBool bool | JNull

type_synonym jmap = "string \<rightharpoonup> jsonv"

text \<open>\<open>RawAssertion\<close>; the fact payload \<open>'f\<close> stands for \<open>map[string]interface{}\<close>, which the
  consolidator only ever passes to \<open>json.Marshal\<close>.\<close>

record 'f RawAssertion =
  ID :: string
  Fact :: 'f
  Source :: string
  Confidence :: real
  Timestamp :: int

record 'f CanonicalFact =
  cfID :: string
  MergedFact :: 'f
  cfConfidence :: real
  Sources :: "string list"
  ValidFrom :: int
  ValidUntil :: "int option"

record ConsolidationConfig =
  SimilarityThreshold :: real
  UseTemporalUpdates :: bool
  MaxConflictAge :: int

record RetrievalConfig =
  Limit :: int
  LexicalWeight :: real
  SemanticWeight :: real
  RRFConstant :: int
  PrefilterRatio :: real
  UsePrefiltering :: bool

section \<open>The embedded key-value store, as the core uses it\<close>

text \<open>
  The package \<open>embedded\<close> is an external collaborator.  Its database is modelled by the list of
  its entries in scan order together with the environment's decision which reads and writes
  fail.  Values are kept decoded: a record that \<open>json.Unmarshal\<close> would reject is an \<open>SBytes\<close>
  entry, which every scan below skips as the source does.  \<open>Get\<close> of a missing key returns a
  \<open>nil\<close> value and no error (tests/test\_comprehensive.go).
\<close>

datatype error = MarshalError | UnmarshalError | StorageError string | Panic

datatype 'f stored =
    SAssertion "'f RawAssertion"
  | SContradiction jmap
  | SCanonical "'f CanonicalFact"
  | SDocument jmap
  | SBytes string

record 'f Database =
  entries :: "(string \<times> 'f stored) list"
  putErr :: "string \<Rightarrow> string option"
  getErr :: "string \<Rightarrow> string option"

fun putEntry :: "string \<Rightarrow> 'v \<Rightarrow> (string \<times> 'v) list \<Rightarrow> (string \<times> 'v) list" where
  "putEntry key v [] = [(key, v)]"
| "putEntry key v ((k, w) # es) = (if k = key then (k, v) # es else (k, w) # putEntry key v es)"

definition db_Put :: "'f Database \<Rightarrow> string \<Rightarrow> 'f stored \<Rightarrow> error + 'f Database" where
  "db_Put db key v =
     (case putErr db key of
        Some msg \<Rightarrow> Inl (StorageError msg)
      | None \<Rightarrow> Inr (db\<lparr>entries := putEntry key v (entries db)\<rparr>))"

definition db_Get :: "'f Database \<Rightarrow> string \<Rightarrow> error + 'f stored option" where
  "db_Get db key =
     (case getErr db key of
        Some msg \<Rightarrow> Inl (StorageError msg)
      | None \<Rightarrow> Inr (map_of (entries db) key))"

definition ScanPrefix :: "'f Database \<Rightarrow> string \<Rightarrow> (string \<times> 'f stored) list" where
  "ScanPrefix db p = filter (\<lambda>(k, v). take (length p) k = p) (entries db)"

text \<open>The library functions the consolidator calls: \<open>json.Marshal\<close> on a fact (it can fail),
  \<open>hex.EncodeToString\<close> of \<open>sha256.Sum256\<close> (64 hexadecimal characters), and \<open>time.Now().Unix()\<close>,
  taken to be the same instant throughout one call.\<close>

record 'f runtime =
  jsonMarshal :: "'f \<Rightarrow> string option"
  sha256Hex :: "string \<Rightarrow> string"
  timeNow :: int

section \<open>Consolidator\<close>

record Consolidator =
  namespace :: string
  config :: ConsolidationConfig
  prefix :: string

definition NewConsolidator :: "string \<Rightarrow> ConsolidationConfig option \<Rightarrow> Consolidator" where
  "NewConsolidator ns cfg =
     \<lparr>namespace = ns,
      config = (case cfg of
                  None \<Rightarrow> \<lparr>SimilarityThreshold = 0.85, UseTemporalUpdates = True,
                           MaxConflictAge = 86400\<rparr>
                | Some c \<Rightarrow> c),
      prefix = ''consolidation:'' @ ns @ '':''\<rparr>"

subsection \<open>Identifiers\<close>

text \<open>Both generators drop the error of \<open>json.Marshal\<close>; on failure \<open>data\<close> is \<open>nil\<close>.\<close>

definition marshalOrNil :: "'f runtime \<Rightarrow> 'f \<Rightarrow> string" where
  "marshalOrNil rt f = (case jsonMarshal rt f of Some d \<Rightarrow> d | None \<Rightarrow> [])"

definition generateAssertionID :: "'f runtime \<Rightarrow> 'f RawAssertion \<Rightarrow> string" where
  "generateAssertionID rt assertion =
     (let data = marshalOrNil rt (Fact assertion);
          combined = data @ Source assertion
      in take 16 (sha256Hex rt combined))"

definition generateCanonicalID :: "'f runtime \<Rightarrow> 'f RawAssertion \<Rightarrow> string" where
  "generateCanonicalID rt assertion =
     (let data = marshalOrNil rt (Fact assertion)
      in take 16 (sha256Hex rt data))"

subsection \<open>Add\<close>

text \<open>\<open>json.Marshal(storedAssertion)\<close> fails exactly when the fact cannot be marshalled: the other
  fields are strings, a finite number and an integer.\<close>

definition Add ::
  "'f runtime \<Rightarrow> Consolidator \<Rightarrow> 'f Database \<Rightarrow> 'f RawAssertion \<Rightarrow> error + (string \<times> 'f Database)" where
  "Add rt c db assertion =
     (let aid = (if ID assertion = [] then generateAssertionID rt assertion else ID assertion);
          timestamp = (if Timestamp assertion = 0 then timeNow rt else Timestamp assertion);
          storedAssertion = assertion\<lparr>ID := aid, Timestamp := timestamp\<rparr>;
          key = prefix c @ ''assertion:'' @ aid
      in case jsonMarshal rt (Fact storedAssertion) of
           None \<Rightarrow> Inl MarshalError
         | Some data \<Rightarrow>
             (case db_Put db key (SAssertion storedAssertion) of
                Inl e \<Rightarrow> Inl e
              | Inr db' \<Rightarrow> Inr (aid, db')))"

subsection \<open>AddWithContradiction\<close>

text \<open>The loop over \<open>contradicts\<close>: one edge per contradicted id, stamped with the current time;
  it stops at the first failed write.  The edge is a map of two strings and an integer, which
  always marshals and reads back as two strings and a number.\<close>

fun addEdges ::
  "'f runtime \<Rightarrow> Consolidator \<Rightarrow> string \<Rightarrow> string list \<Rightarrow> 'f Database \<Rightarrow> error option \<times> 'f Database" where
  "addEdges rt c aid [] db = (None, db)"
| "addEdges rt c aid (contradictedID # rest) db =
     (case db_Put db (prefix c @ ''contradiction:'' @ contradictedID @ '':'' @ aid)
             (SContradiction [''from'' \<mapsto> JString contradictedID, ''to'' \<mapsto> JString aid,
                              ''timestamp'' \<mapsto> JNumber (real_of_int (timeNow rt))]) of
        Inl e \<Rightarrow> (Some e, db)
      | Inr db' \<Rightarrow> addEdges rt c aid rest db')"

definition AddWithContradiction ::
  "'f runtime \<Rightarrow> Consolidator \<Rightarrow> 'f Database \<Rightarrow> 'f RawAssertion \<Rightarrow> string list
     \<Rightarrow> string \<times> error option \<times> 'f Database" where
  "AddWithContradiction rt c db newAssertion contradicts =
     (case Add rt c db newAssertion of
        Inl e \<Rightarrow> ([], Some e, db)
      | Inr (aid, db') \<Rightarrow> (case addEdges rt c aid contradicts db' of (e, db'') \<Rightarrow> (aid, e, db'')))"

subsection \<open>mergeConfidence\<close>

text \<open>The loop \<open>for i, assertion := range assertions\<close> of \<open>mergeConfidence\<close>, started at index
  \<open>i\<close> with the accumulators \<open>(weightedSum, totalWeight)\<close>.\<close>

fun mergeLoop :: "nat \<Rightarrow> 'f RawAssertion list \<Rightarrow> real \<times> real \<Rightarrow> real \<times> real" where
  "mergeLoop i [] acc = acc"
| "mergeLoop i (a # as) (weightedSum, totalWeight) =
     (let weight = 1 / real (i + 1)
      in mergeLoop (i + 1) as (weightedSum + Confidence a * weight, totalWeight + weight))"

definition mergeConfidence :: "'f RawAssertion list \<Rightarrow> real" where
  "mergeConfidence assertions =
     (if length assertions = 0 then 0
      else if length assertions = 1 then Confidence (hd assertions)
      else (case mergeLoop 0 assertions (0, 0) of
              (weightedSum, totalWeight) \<Rightarrow> weightedSum / totalWeight))"

subsection \<open>Consolidate\<close>

definition getAllAssertions :: "Consolidator \<Rightarrow> 'f Database \<Rightarrow> 'f RawAssertion list" where
  "getAllAssertions c db =
     List.map_filter (\<lambda>(k, v). case v of SAssertion a \<Rightarrow> Some a | _ \<Rightarrow> None)
       (ScanPrefix db (prefix c @ ''assertion:''))"

definition getContradictions :: "Consolidator \<Rightarrow> 'f Database \<Rightarrow> jmap list" where
  "getContradictions c db =
     List.map_filter (\<lambda>(k, v). case v of SContradiction m \<Rightarrow> Some m | _ \<Rightarrow> None)
       (ScanPrefix db (prefix c @ ''contradiction:''))"

text \<open>\<open>groups[key] = append(groups[key], &assertions[i])\<close>; the groups are kept in the order of
  their first member, Go's map iteration order being unspecified.\<close>

fun appendToGroup ::
  "string \<Rightarrow> 'a \<Rightarrow> (string \<times> 'a list) list \<Rightarrow> (string \<times> 'a list) list" where
  "appendToGroup key a [] = [(key, [a])]"
| "appendToGroup key a ((k, g) # gs) =
     (if k = key then (k, g @ [a]) # gs else (k, g) # appendToGroup key a gs)"

fun groupAssertions ::
  "'f runtime \<Rightarrow> 'f RawAssertion list \<Rightarrow> (string \<times> 'f RawAssertion list) list
     \<Rightarrow> (string \<times> 'f RawAssertion list) list" where
  "groupAssertions rt [] groups = groups"
| "groupAssertions rt (a # as) groups =
     (case jsonMarshal rt (Fact a) of
        None \<Rightarrow> groupAssertions rt as groups
      | Some subject \<Rightarrow> groupAssertions rt as (appendToGroup subject a groups))"

text \<open>The comparison handed to \<open>sort.Slice\<close> for a group.\<close>

definition rankLess :: "'f RawAssertion \<Rightarrow> 'f RawAssertion \<Rightarrow> bool" where
  "rankLess x y =
     (if Confidence x \<noteq> Confidence y then Confidence x > Confidence y
      else Timestamp x > Timestamp y)"

text \<open>Two's-complement wrap-around of an \<open>int64\<close> result, and the conversion \<open>int64(ts)\<close> of a
  \<open>float64\<close> (truncation towards zero).\<close>

definition wrap64 :: "int \<Rightarrow> int" where
  "wrap64 x = (x + 2 ^ 63) mod 2 ^ 64 - 2 ^ 63"

definition int64_of_float :: "real \<Rightarrow> int" where
  "int64_of_float r = wrap64 (if r \<ge> 0 then \<lfloor>r\<rfloor> else \<lceil>r\<rceil>)"

text \<open>The inner loop \<open>for _, cont := range contradictions\<close> with its \<open>break\<close>: the first edge
  whose \<open>from\<close> is the assertion's id decides, later edges are not looked at.\<close>

fun isContradicted :: "ConsolidationConfig \<Rightarrow> int \<Rightarrow> jmap list \<Rightarrow> string \<Rightarrow> bool" where
  "isContradicted cfg now [] aid = False"
| "isContradicted cfg now (cont # conts) aid =
     (if cont ''from'' = Some (JString aid) then
        (if UseTemporalUpdates cfg then
           (case cont ''timestamp'' of
              Some (JNumber ts) \<Rightarrow>
                (let age = wrap64 (now - int64_of_float ts)
                 in if age > MaxConflictAge cfg then False else True)
            | _ \<Rightarrow> True)
         else True)
      else isContradicted cfg now conts aid)"

definition validAssertionsOf ::
  "ConsolidationConfig \<Rightarrow> int \<Rightarrow> jmap list \<Rightarrow> 'f RawAssertion list \<Rightarrow> 'f RawAssertion list" where
  "validAssertionsOf cfg now contradictions ranked =
     filter (\<lambda>a. \<not> isContradicted cfg now contradictions (ID a)) ranked"

text \<open>The body of \<open>for _, group := range groups\<close> up to the canonical fact; \<open>srt\<close> is what
  \<open>sort.Slice(group, less)\<close> leaves in \<open>group\<close>.  The timestamps are integers, so sorting them
  ascending has one result and \<open>timestamps[0]\<close> is its head.\<close>

definition canonicalOfGroup ::
  "'f runtime \<Rightarrow> ConsolidationConfig \<Rightarrow> ('f RawAssertion list \<Rightarrow> 'f RawAssertion list)
     \<Rightarrow> jmap list \<Rightarrow> 'f RawAssertion list \<Rightarrow> 'f CanonicalFact option" where
  "canonicalOfGroup rt cfg srt contradictions grp =
     (let validAssertions = validAssertionsOf cfg (timeNow rt) contradictions (srt grp)
      in if length validAssertions > 0 then
           Some \<lparr>cfID = generateCanonicalID rt (hd validAssertions),
                 MergedFact = Fact (hd validAssertions),
                 cfConfidence = mergeConfidence validAssertions,
                 Sources = map Source validAssertions,
                 ValidFrom = hd (sort (map Timestamp validAssertions)),
                 ValidUntil = None\<rparr>
         else None)"

text \<open>Writing one canonical fact: \<open>continue\<close> when marshalling or the write fails.\<close>

fun writeCanonicals ::
  "'f runtime \<Rightarrow> Consolidator \<Rightarrow> 'f CanonicalFact option list \<Rightarrow> int \<times> 'f Database
     \<Rightarrow> int \<times> 'f Database" where
  "writeCanonicals rt c [] st = st"
| "writeCanonicals rt c (None # cs) st = writeCanonicals rt c cs st"
| "writeCanonicals rt c (Some canonical # cs) (updated, db) =
     (case jsonMarshal rt (MergedFact canonical) of
        None \<Rightarrow> writeCanonicals rt c cs (updated, db)
      | Some data \<Rightarrow>
          (case db_Put db (prefix c @ ''canonical:'' @ cfID canonical) (SCanonical canonical) of
             Inl e \<Rightarrow> writeCanonicals rt c cs (updated, db)
           | Inr db' \<Rightarrow> writeCanonicals rt c cs (updated + 1, db')))"

definition canonicalsOf ::
  "'f runtime \<Rightarrow> Consolidator \<Rightarrow> ('f RawAssertion list \<Rightarrow> 'f RawAssertion list)
     \<Rightarrow> 'f Database \<Rightarrow> 'f CanonicalFact option list" where
  "canonicalsOf rt c srt db =
     (let assertions = getAllAssertions c db;
          contradictions = getContradictions c db;
          groups = groupAssertions rt assertions []
      in map (\<lambda>(key, grp). canonicalOfGroup rt (config c) srt contradictions grp) groups)"

definition Consolidate ::
  "'f runtime \<Rightarrow> Consolidator \<Rightarrow> ('f RawAssertion list \<Rightarrow> 'f RawAssertion list)
     \<Rightarrow> 'f Database \<Rightarrow> int \<times> 'f Database" where
  "Consolidate rt c srt db = writeCanonicals rt c (canonicalsOf rt c srt db) (0, db)"

subsection \<open>Explain\<close>

record Explanation =
  evidence_count :: int
  sources :: "string list"
  confidence :: real

definition Explain :: "Consolidator \<Rightarrow> 'f Database \<Rightarrow> string \<Rightarrow> error + Explanation" where
  "Explain c db factID =
     (case db_Get db (prefix c @ ''canonical:'' @ factID) of
        Inl err \<Rightarrow> Inr \<lparr>evidence_count = 0, sources = [], confidence = 0.0\<rparr>
      | Inr value \<Rightarrow>
          (case value of
             Some (SCanonical cf) \<Rightarrow>
               Inr \<lparr>evidence_count = int (length (Sources cf)), sources = Sources cf,
                     confidence = cfConfidence cf\<rparr>
           | _ \<Rightarrow> Inl UnmarshalError))"

section \<open>Hybrid retriever\<close>

subsection \<open>Tokenizer\<close>

text \<open>Texts are taken to be ASCII: on such input \<open>strings.ToLower\<close> changes the letters \<open>A\<close> to
  \<open>Z\<close> only, and \<open>strings.Fields\<close> splits at the six ASCII white-space characters.\<close>

definition toLowerChar :: "char \<Rightarrow> char" where
  "toLowerChar c =
     (let n = (of_char c :: nat) in if 65 \<le> n \<and> n \<le> 90 then char_of (n + 32) else c)"

definition isSpace :: "char \<Rightarrow> bool" where
  "isSpace c = ((of_char c :: nat) \<in> {9, 10, 11, 12, 13, 32})"

text \<open>\<open>strings.Fields\<close>: \<open>cur\<close> holds the field being read, in reverse.\<close>

fun fieldsLoop :: "string \<Rightarrow> string \<Rightarrow> string list" where
  "fieldsLoop [] cur = (if cur = [] then [] else [rev cur])"
| "fieldsLoop (c # cs) cur =
     (if isSpace c then (if cur = [] then fieldsLoop cs [] else rev cur # fieldsLoop cs [])
      else fieldsLoop cs (c # cur))"

definition Fields :: "string \<Rightarrow> string list" where
  "Fields s = fieldsLoop s []"

definition cutset :: "string" where
  "cutset = ''.,!?;:()[]{}'' @ [CHR 0x22, CHR 0x27]"

definition Trim :: "string \<Rightarrow> string \<Rightarrow> string" where
  "Trim s chars = rev (dropWhile (\<lambda>c. c \<in> set chars) (rev (dropWhile (\<lambda>c. c \<in> set chars) s)))"

fun cleanTerms :: "string list \<Rightarrow> string list" where
  "cleanTerms [] = []"
| "cleanTerms (t # ts) =
     (let t' = Trim t cutset in if length t' > 0 then t' # cleanTerms ts else cleanTerms ts)"

definition tokenize :: "string \<Rightarrow> string list" where
  "tokenize text = cleanTerms (Fields (map toLowerChar text))"

subsection \<open>BM25 scorer\<close>

text \<open>A Go map with integer values reads as zero at a missing key.\<close>

definition lookupInt :: "('k \<rightharpoonup> int) \<Rightarrow> 'k \<Rightarrow> int" where
  "lookupInt m k = (case m k of None \<Rightarrow> 0 | Some v \<Rightarrow> v)"


record BM25Scorer =
  k1 :: real
  b :: real
  documentCount :: int
  avgDocLength :: real
  termDocFreq :: "string \<rightharpoonup> int"
  documentLengths :: "string \<rightharpoonup> int"
  documents :: "string \<rightharpoonup> string"

definition NewBM25Scorer :: "real \<Rightarrow> real \<Rightarrow> BM25Scorer" where
  "NewBM25Scorer k1' b' =
     \<lparr>k1 = k1', b = b', documentCount = 0, avgDocLength = 0,
      termDocFreq = Map.empty, documentLengths = Map.empty, documents = Map.empty\<rparr>"

text \<open>The loop over the terms of one document; \<open>seen\<close> is the local \<open>map[string]bool\<close>.\<close>

fun countUnique :: "string list \<Rightarrow> (string \<Rightarrow> bool) \<Rightarrow> (string \<rightharpoonup> int) \<Rightarrow> (string \<rightharpoonup> int)" where
  "countUnique [] seen tdf = tdf"
| "countUnique (t # ts) seen tdf =
     (if \<not> seen t then countUnique ts (seen(t := True)) (tdf(t \<mapsto> lookupInt tdf t + 1))
      else countUnique ts seen tdf)"

text \<open>The loop \<open>for id, text := range docs\<close>; the argument map is given as the list of its
  entries in iteration order, the state is the scorer and \<open>totalLength\<close>.\<close>

fun indexLoop :: "(string \<times> string) list \<Rightarrow> BM25Scorer \<times> int \<Rightarrow> BM25Scorer \<times> int" where
  "indexLoop [] st = st"
| "indexLoop ((did, text) # rest) (bm, totalLength) =
     (let terms = tokenize text;
          bm1 = bm\<lparr>documentLengths := (documentLengths bm)(did \<mapsto> int (length terms))\<rparr>;
          bm2 = bm1\<lparr>termDocFreq := countUnique terms (\<lambda>t. False) (termDocFreq bm1)\<rparr>
      in indexLoop rest (bm2, totalLength + int (length terms)))"

definition BM25_IndexDocuments :: "BM25Scorer \<Rightarrow> (string \<times> string) list \<Rightarrow> BM25Scorer" where
  "BM25_IndexDocuments bm docs =
     (case indexLoop docs (bm\<lparr>documents := map_of docs, documentCount := int (length docs)\<rparr>, 0) of
        (bm', totalLength) \<Rightarrow>
          (if documentCount bm' > 0
           then bm'\<lparr>avgDocLength := real_of_int totalLength / real_of_int (documentCount bm')\<rparr>
           else bm'))"

fun countTerms :: "string list \<Rightarrow> (string \<rightharpoonup> int) \<Rightarrow> (string \<rightharpoonup> int)" where
  "countTerms [] m = m"
| "countTerms (t # ts) m = countTerms ts (m(t \<mapsto> lookupInt m t + 1))"

text \<open>One round of the loop over the query terms: what is added to \<open>score\<close>.\<close>

definition termContribution :: "BM25Scorer \<Rightarrow> (string \<rightharpoonup> int) \<Rightarrow> real \<Rightarrow> string \<Rightarrow> real" where
  "termContribution bm termFreqs docLength t =
     (let tf = real_of_int (lookupInt termFreqs t);
          df = real_of_int (lookupInt (termDocFreq bm) t)
      in if df = 0 then 0
         else (let idf = ln ((real_of_int (documentCount bm) - df + 0.5) / (df + 0.5) + 1.0);
                   numerator = tf * (k1 bm + 1);
                   denominator = tf + k1 bm * (1 - b bm + b bm * (docLength / avgDocLength bm))
               in idf * (numerator / denominator)))"

fun scoreLoop :: "BM25Scorer \<Rightarrow> (string \<rightharpoonup> int) \<Rightarrow> real \<Rightarrow> string list \<Rightarrow> real \<Rightarrow> real" where
  "scoreLoop bm termFreqs docLength [] score = score"
| "scoreLoop bm termFreqs docLength (t # ts) score =
     scoreLoop bm termFreqs docLength ts (score + termContribution bm termFreqs docLength t)"

definition Score :: "BM25Scorer \<Rightarrow> string \<Rightarrow> string \<Rightarrow> real" where
  "Score bm query docID =
     (let queryTerms = tokenize query
      in case documents bm docID of
           None \<Rightarrow> 0
         | Some docText \<Rightarrow>
             (let docTerms = tokenize docText;
                  termFreqs = countTerms docTerms Map.empty;
                  docLength = real_of_int (lookupInt (documentLengths bm) docID)
              in scoreLoop bm termFreqs docLength queryTerms 0))"

subsection \<open>Retriever\<close>

record HybridRetriever =
  hrNamespace :: string
  hrConfig :: RetrievalConfig
  hrPrefix :: string
  bm25 :: BM25Scorer

definition NewHybridRetriever :: "string \<Rightarrow> RetrievalConfig option \<Rightarrow> HybridRetriever" where
  "NewHybridRetriever ns cfg =
     \<lparr>hrNamespace = ns,
      hrConfig = (case cfg of
                    None \<Rightarrow> \<lparr>Limit = 10, LexicalWeight = 0.3, SemanticWeight = 0.7,
                             RRFConstant = 60, PrefilterRatio = 3.0, UsePrefiltering = True\<rparr>
                  | Some c \<Rightarrow> c),
      hrPrefix = ''retrieval:'' @ ns @ '':'',
      bm25 = NewBM25Scorer 1.5 0.75\<rparr>"

text \<open>The first loop of \<open>IndexDocuments\<close>: it returns at the first failed write, with the earlier
  documents already stored.  A document is a map of JSON values, which always marshals.\<close>

fun storeDocuments ::
  "HybridRetriever \<Rightarrow> (string \<times> jmap) list \<Rightarrow> 'f Database \<Rightarrow> error option \<times> 'f Database" where
  "storeDocuments hr [] db = (None, db)"
| "storeDocuments hr ((did, doc) # rest) db =
     (case db_Put db (hrPrefix hr @ ''doc:'' @ did) (SDocument doc) of
        Inl e \<Rightarrow> (Some e, db)
      | Inr db' \<Rightarrow> storeDocuments hr rest db')"

definition textMapOf :: "(string \<times> jmap) list \<Rightarrow> (string \<times> string) list" where
  "textMapOf docs =
     List.map_filter
       (\<lambda>(did, doc). case doc ''text'' of Some (JString text) \<Rightarrow> Some (did, text) | _ \<Rightarrow> None) docs"

definition HR_IndexDocuments ::
  "HybridRetriever \<Rightarrow> 'f Database \<Rightarrow> (string \<times> jmap) list
     \<Rightarrow> error option \<times> HybridRetriever \<times> 'f Database" where
  "HR_IndexDocuments hr db docs =
     (case storeDocuments hr docs db of
        (Some e, db') \<Rightarrow> (Some e, hr, db')
      | (None, db') \<Rightarrow> (None, hr\<lparr>bm25 := BM25_IndexDocuments (bm25 hr) (textMapOf docs)\<rparr>, db'))"


subsection \<open>Cosine similarity\<close>


subsection \<open>Reciprocal rank fusion\<close>

text \<open>
  \<open>sort.Slice\<close> is not stable and the slices it is given are filled by ranging over Go maps, so
  the order it leaves among elements that compare equal is not fixed by the source.  The
  functions below take the outcome of each \<open>sort.Slice\<close> call as a parameter; \<open>sortSliceSpec\<close> is
  what the library promises of it: a permutation in which no element is less than an earlier
  one.
\<close>

definition sortSliceSpec :: "('a \<Rightarrow> 'a \<Rightarrow> bool) \<Rightarrow> 'a list \<Rightarrow> 'a list \<Rightarrow> bool" where
  "sortSliceSpec lt xs ys = (mset ys = mset xs \<and> sorted_wrt (\<lambda>x y. \<not> lt y x) ys)"

text \<open>A function that meets the promise on every slice.\<close>

definition sortSliceOK :: "('a \<Rightarrow> 'a \<Rightarrow> bool) \<Rightarrow> ('a list \<Rightarrow> 'a list) \<Rightarrow> bool" where
  "sortSliceOK lt srt = (\<forall>xs. sortSliceSpec lt xs (srt xs))"

text \<open>Insertion sort moving each element left while it is less than its predecessor: one
  implementation within \<open>sortSliceSpec\<close>; it keeps equal elements in their order.  Running it
  on the reversed slice is another, which reverses them.\<close>

fun insertLess :: "('a \<Rightarrow> 'a \<Rightarrow> bool) \<Rightarrow> 'a \<Rightarrow> 'a list \<Rightarrow> 'a list" where
  "insertLess lt x [] = [x]"
| "insertLess lt x (y # ys) = (if lt y x then y # insertLess lt x ys else x # y # ys)"

definition insertionSort :: "('a \<Rightarrow> 'a \<Rightarrow> bool) \<Rightarrow> 'a list \<Rightarrow> 'a list" where
  "insertionSort lt xs = foldr (insertLess lt) xs []"

definition insertionSortRev :: "('a \<Rightarrow> 'a \<Rightarrow> bool) \<Rightarrow> 'a list \<Rightarrow> 'a list" where
  "insertionSortRev lt xs = insertionSort lt (rev xs)"







subsection \<open>Retrieve\<close>

text \<open>\<open>doc["id"].(string)\<close> panics unless the entry is a string.\<close>

definition docID :: "jmap \<Rightarrow> string option" where
  "docID doc = (case doc ''id'' of Some (JString s) \<Rightarrow> Some s | _ \<Rightarrow> None)"









section \<open>Fixtures\<close>

text \<open>Concrete inputs for the instances below.  The fixture facts are strings that are their
  own JSON encoding; the fixture hash pads or cuts its input to 64 characters.\<close>

definition fixtureRuntime :: "int \<Rightarrow> string runtime" where
  "fixtureRuntime now =
     \<lparr>jsonMarshal = Some, sha256Hex = (\<lambda>s. take 64 (s @ replicate 64 (CHR ''0''))), timeNow = now\<rparr>"

definition fixtureDb :: "(string \<times> string stored) list \<Rightarrow> string Database" where
  "fixtureDb es = \<lparr>entries = es, putErr = (\<lambda>k. None), getErr = (\<lambda>k. None)\<rparr>"

definition mkAssertion :: "string \<Rightarrow> string \<Rightarrow> string \<Rightarrow> real \<Rightarrow> int \<Rightarrow> string RawAssertion" where
  "mkAssertion i f s c t = \<lparr>ID = i, Fact = f, Source = s, Confidence = c, Timestamp = t\<rparr>"

definition scenarioA :: "string RawAssertion list" where
  "scenarioA =
     [mkAssertion ''a1'' ''alice works at techcorp'' ''linkedin'' 0.95 100,
      mkAssertion ''a2'' ''alice works at techcorp'' ''website'' 0.90 101,
      mkAssertion ''a3'' ''alice works at techcorp'' ''github'' 0.85 102]"

definition scenarioA_db :: "string Database" where
  "scenarioA_db = fixtureDb
     [(''consolidation:ns:assertion:a1'', SAssertion (scenarioA ! 0)),
      (''consolidation:ns:assertion:a2'', SAssertion (scenarioA ! 1)),
      (''consolidation:ns:assertion:a3'', SAssertion (scenarioA ! 2))]"

definition scenarioA_canonical :: "string CanonicalFact" where
  "scenarioA_canonical =
     \<lparr>cfID = ''alice works at t'', MergedFact = ''alice works at techcorp'',
      cfConfidence = 101 / 110, Sources = [''linkedin'', ''website'', ''github''],
      ValidFrom = 100, ValidUntil = None\<rparr>"

definition newAssertion :: "string RawAssertion" where
  "newAssertion = mkAssertion [] ''bob likes tea'' ''wiki'' 0.5 0"

definition onlyLexicalWeight :: RetrievalConfig where
  "onlyLexicalWeight = \<lparr>Limit = 0, LexicalWeight = 0.5, SemanticWeight = 0, RRFConstant = 0,
      PrefilterRatio = 0, UsePrefiltering = False\<rparr>"

text \<open>Two contradiction edges from \<open>a1\<close>, written at times 1000 and 99000, read at time 100000
  with the default window of 86400 seconds: the first is expired, the second is not.\<close>

definition mkEdge :: "string \<Rightarrow> string \<Rightarrow> real \<Rightarrow> jmap" where
  "mkEdge f t ts = [''from'' \<mapsto> JString f, ''to'' \<mapsto> JString t, ''timestamp'' \<mapsto> JNumber ts]"

definition edgeOld :: jmap where
  "edgeOld = mkEdge ''a1'' ''a2'' 1000"

definition edgeNew :: jmap where
  "edgeNew = mkEdge ''a1'' ''a3'' 99000"

definition defaultConfig :: ConsolidationConfig where
  "defaultConfig = config (NewConsolidator ''ns'' None)"


text \<open>One document indexed twice by the same retriever.\<close>

definition aliceDocs :: "(string \<times> jmap) list" where
  "aliceDocs = [(''d1'', [''text'' \<mapsto> JString ''alice''])]"

definition indexedOnce :: "error option \<times> HybridRetriever \<times> string Database" where
  "indexedOnce = HR_IndexDocuments (NewHybridRetriever ''ns'' None) (fixtureDb []) aliceDocs"

definition indexedTwice :: "error option \<times> HybridRetriever \<times> string Database" where
  "indexedTwice =
     (case indexedOnce of (e, hr, db) \<Rightarrow> HR_IndexDocuments hr db aliceDocs)"







text \<open>The scorer after indexing that document, with document frequency \<open>df\<close> for its term, and the
  store holding it.\<close>

definition aliceScorer :: "int \<Rightarrow> BM25Scorer" where
  "aliceScorer df = \<lparr>k1 = 1.5, b = 0.75, documentCount = 1, avgDocLength = 1,
      termDocFreq = [''alice'' \<mapsto> df], documentLengths = [''d1'' \<mapsto> 1],
      documents = [''d1'' \<mapsto> ''alice'']\<rparr>"

definition aliceDb :: "string Database" where
  "aliceDb = fixtureDb [(''retrieval:ns:doc:d1'', SDocument [''text'' \<mapsto> JString ''alice''])]"




text \<open>A history through the API: \<open>a1\<close> is added at time 1000, superseded by \<open>a2\<close> at time 1000 and
  again by \<open>a3\<close> at time 99000.\<close>

definition supersededTwice :: "string Database" where
  "supersededTwice =
     (case Add (fixtureRuntime 1000) (NewConsolidator ''ns'' None) (fixtureDb [])
             (mkAssertion ''a1'' ''alice is 32'' ''profile 2023'' 0.8 1000) of
        Inl e \<Rightarrow> fixtureDb []
      | Inr (i1, db1) \<Rightarrow>
          (case AddWithContradiction (fixtureRuntime 1000) (NewConsolidator ''ns'' None) db1
                  (mkAssertion ''a2'' ''alice is 33'' ''profile 2024'' 0.95 1000) [i1] of
             (i2, e2, db2) \<Rightarrow>
               (case AddWithContradiction (fixtureRuntime 99000) (NewConsolidator ''ns'' None) db2
                       (mkAssertion ''a3'' ''alice is 34'' ''profile 2025'' 0.9 99000) [i1] of
                  (i3, e3, db3) \<Rightarrow> db3)))"

section \<open>The BM25 statistics and score as the specification words them\<close>

text \<open>The statistics of the specification, computed from scratch over a document set: the
  number of documents whose tokens contain a term, the token length of a text, the total and
  the term frequency.\<close>

definition docFreq :: "(string \<times> string) list \<Rightarrow> string \<Rightarrow> int" where
  "docFreq docs t = int (length (filter (\<lambda>(did, text). t \<in> set (tokenize text)) docs))"

definition docLen :: "string \<Rightarrow> int" where
  "docLen text = int (length (tokenize text))"

definition totalLen :: "(string \<times> string) list \<Rightarrow> int" where
  "totalLen docs = (\<Sum>(did, text) \<leftarrow> docs. docLen text)"

definition termFreq :: "string \<Rightarrow> string \<Rightarrow> int" where
  "termFreq text t = int (count_list (tokenize text) t)"

text \<open>The score of the specification, section 4.4.3, over those statistics.\<close>

definition specIdf :: "(string \<times> string) list \<Rightarrow> string \<Rightarrow> real" where
  "specIdf docs t =
     ln ((real (length docs) - real_of_int (docFreq docs t) + 0.5) / (real_of_int (docFreq docs t) + 0.5) + 1)"

definition specTerm :: "(string \<times> string) list \<Rightarrow> string \<Rightarrow> string \<Rightarrow> real" where
  "specTerm docs text t =
     (if docFreq docs t = 0 then 0
      else specIdf docs t * (real_of_int (termFreq text t) * (1.5 + 1)) /
           (real_of_int (termFreq text t) +
            1.5 * (1 - 0.75 + 0.75 * (real_of_int (docLen text) /
                                      (real_of_int (totalLen docs) / real (length docs))))))"

section \<open>Sorting\<close>

lemma insertLess_mset: "mset (insertLess lt x ys) = add_mset x (mset ys)"
  by (induction ys) auto

lemma insertionSort_mset: "mset (insertionSort lt xs) = mset xs"
  by (induction xs) (auto simp: insertionSort_def insertLess_mset)

lemma insertLess_set: "set (insertLess lt x ys) = insert x (set ys)"
  by (induction ys) auto

lemma insertLess_sorted:
  assumes asym: "\<And>x y. lt x y \<Longrightarrow> \<not> lt y x"
    and trans: "\<And>x y z. \<not> lt y x \<Longrightarrow> \<not> lt z y \<Longrightarrow> \<not> lt z x"
  shows "sorted_wrt (\<lambda>x y. \<not> lt y x) ys \<Longrightarrow> sorted_wrt (\<lambda>x y. \<not> lt y x) (insertLess lt x ys)"
proof (induction ys)
  case Nil
  then show ?case by simp
next
  case (Cons y ys)
  show ?case
  proof (cases "lt y x")
    case True
    have "\<not> lt x y" using True asym by blast
    moreover have "sorted_wrt (\<lambda>x y. \<not> lt y x) (insertLess lt x ys)"
      using Cons by simp
    moreover have "\<forall>z\<in>set ys. \<not> lt z y" using Cons.prems by simp
    ultimately show ?thesis using True by (simp add: insertLess_set)
  next
    case False
    have "\<forall>z\<in>set ys. \<not> lt z y" using Cons.prems by simp
    then have "\<forall>z\<in>set ys. \<not> lt z x" using trans False by blast
    then show ?thesis using False Cons.prems by simp
  qed
qed

lemma insertionSort_spec:
  assumes asym: "\<And>x y. lt x y \<Longrightarrow> \<not> lt y x"
    and trans: "\<And>x y z. \<not> lt y x \<Longrightarrow> \<not> lt z y \<Longrightarrow> \<not> lt z x"
  shows "sortSliceSpec lt xs (insertionSort lt xs)"
proof -
  have "sorted_wrt (\<lambda>x y. \<not> lt y x) (insertionSort lt xs)"
  proof (induction xs)
    case Nil
    then show ?case by (simp add: insertionSort_def)
  next
    case (Cons a xs)
    have "sorted_wrt (\<lambda>x y. \<not> lt y x) (insertLess lt a (insertionSort lt xs))"
      by (rule insertLess_sorted [OF asym trans Cons.IH])
    then show ?case by (simp add: insertionSort_def)
  qed
  then show ?thesis by (simp add: sortSliceSpec_def insertionSort_mset)
qed

lemma insertionSort_rankLess: "sortSliceSpec rankLess xs (insertionSort rankLess xs)"
  by (rule insertionSort_spec) (auto simp: rankLess_def split: if_splits)

lemma insertionSortRev_rankLess: "sortSliceSpec rankLess xs (insertionSortRev rankLess xs)"
  using insertionSort_rankLess [of "rev xs"]
  by (simp add: sortSliceSpec_def insertionSortRev_def)

lemma insertionSort_rankLess_OK: "sortSliceOK rankLess (insertionSort rankLess)"
  by (simp add: sortSliceOK_def insertionSort_rankLess)

lemma insertionSortRev_rankLess_OK: "sortSliceOK rankLess (insertionSortRev rankLess)"
  by (simp add: sortSliceOK_def insertionSortRev_rankLess)



lemma sortSliceSpec_set: "sortSliceSpec lt xs ys \<Longrightarrow> set ys = set xs"
  by (auto simp: sortSliceSpec_def dest: mset_eq_setD)


section \<open>Merged confidence\<close>




lemma canonicalOfGroup_Some:
  assumes "canonicalOfGroup rt cfg srt contradictions grp = Some cf"
  shows "validAssertionsOf cfg (timeNow rt) contradictions (srt grp) \<noteq> [] \<and>
         cf = \<lparr>cfID = generateCanonicalID rt
                        (hd (validAssertionsOf cfg (timeNow rt) contradictions (srt grp))),
               MergedFact = Fact (hd (validAssertionsOf cfg (timeNow rt) contradictions (srt grp))),
               cfConfidence =
                 mergeConfidence (validAssertionsOf cfg (timeNow rt) contradictions (srt grp)),
               Sources = map Source (validAssertionsOf cfg (timeNow rt) contradictions (srt grp)),
               ValidFrom =
                 hd (sort (map Timestamp
                             (validAssertionsOf cfg (timeNow rt) contradictions (srt grp)))),
               ValidUntil = None\<rparr>"
  using assms by (auto simp: canonicalOfGroup_def Let_def split: if_splits)



section \<open>Identifiers and stored records\<close>

lemma map_of_putEntry: "map_of (putEntry k v es) k = Some v"
  by (induction es) auto

lemma set_putEntry: "set (putEntry k v es) \<subseteq> insert (k, v) (set es)"
  by (induction es) (auto split: if_splits)

lemma appendToGroup_inv:
  "list_all (\<lambda>(k, g). list_all (P k) g) gs \<Longrightarrow> P key a \<Longrightarrow>
   list_all (\<lambda>(k, g). list_all (P k) g) (appendToGroup key a gs)"
  by (induction gs) auto

lemma groupAssertions_inv:
  "list_all (\<lambda>(k, g). list_all (\<lambda>x. jsonMarshal rt (Fact x) = Some k) g) gs \<Longrightarrow>
   list_all (\<lambda>(k, g). list_all (\<lambda>x. jsonMarshal rt (Fact x) = Some k) g)
     (groupAssertions rt as gs)"
proof (induction as arbitrary: gs)
  case Nil
  then show ?case by simp
next
  case (Cons a as)
  show ?case
  proof (cases "jsonMarshal rt (Fact a)")
    case None
    then show ?thesis using Cons by simp
  next
    case (Some subject)
    have "list_all (\<lambda>(k, g). list_all (\<lambda>x. jsonMarshal rt (Fact x) = Some k) g)
            (appendToGroup subject a gs)"
      using appendToGroup_inv [where P = "\<lambda>k x. jsonMarshal rt (Fact x) = Some k"] Cons.prems Some
      by blast
    then show ?thesis using Cons.IH Some by simp
  qed
qed

lemma groupAssertions_marshal:
  assumes "(k, g) \<in> set (groupAssertions rt as [])" and "x \<in> set g"
  shows "jsonMarshal rt (Fact x) = Some k"
  using groupAssertions_inv [of rt "[]" as] assms by (auto simp: list_all_iff)

lemma writeCanonicals_entries:
  "(k, v) \<in> set (entries (snd (writeCanonicals rt c cs (n, db)))) \<Longrightarrow>
     (k, v) \<in> set (entries db) \<or>
     (\<exists>cf. Some cf \<in> set cs \<and> k = prefix c @ ''canonical:'' @ cfID cf \<and> v = SCanonical cf)"
proof (induction cs arbitrary: n db)
  case Nil
  then show ?case by simp
next
  case (Cons x cs)
  show ?case
  proof (cases x)
    case None
    then show ?thesis using Cons by auto
  next
    case (Some cf)
    show ?thesis
    proof (cases "jsonMarshal rt (MergedFact cf)")
      case None
      then show ?thesis using Cons Some by auto
    next
      case marshalled: (Some data)
      show ?thesis
      proof (cases "db_Put db (prefix c @ ''canonical:'' @ cfID cf) (SCanonical cf)")
        case (Inl e)
        then show ?thesis using Cons Some marshalled by auto
      next
        case (Inr db')
        then have db': "set (entries db') \<subseteq>
            insert (prefix c @ ''canonical:'' @ cfID cf, SCanonical cf) (set (entries db))"
          using set_putEntry [of "prefix c @ ''canonical:'' @ cfID cf" "SCanonical cf" "entries db"]
          by (auto simp: db_Put_def split: option.splits)
        have "(k, v) \<in> set (entries (snd (writeCanonicals rt c cs (n + 1, db'))))"
          using Cons.prems Some marshalled Inr by simp
        from Cons.IH [OF this] show ?thesis using db' Some by auto
      qed
    qed
  qed
qed

lemma getAllAssertions_scenarioA:
  "getAllAssertions (NewConsolidator ''ns'' None) scenarioA_db = scenarioA"
  by (simp add: getAllAssertions_def ScanPrefix_def scenarioA_db_def fixtureDb_def
      NewConsolidator_def List.map_filter_def scenarioA_def)

lemma getContradictions_scenarioA:
  "getContradictions (NewConsolidator ''ns'' None) scenarioA_db = []"
  by (simp add: getContradictions_def ScanPrefix_def scenarioA_db_def fixtureDb_def
      NewConsolidator_def List.map_filter_def)

lemma groupAssertions_scenarioA:
  "groupAssertions (fixtureRuntime now) scenarioA [] = [(''alice works at techcorp'', scenarioA)]"
  by (simp add: scenarioA_def mkAssertion_def fixtureRuntime_def)

lemma insertionSort_scenarioA: "insertionSort rankLess scenarioA = scenarioA"
  by (simp add: insertionSort_def scenarioA_def mkAssertion_def rankLess_def)

lemma canonicalOfGroup_scenarioA:
  "canonicalOfGroup (fixtureRuntime 200) (config (NewConsolidator ''ns'' None))
     (insertionSort rankLess) [] scenarioA = Some scenarioA_canonical"
proof -
  have valid: "validAssertionsOf (config (NewConsolidator ''ns'' None)) 200 [] scenarioA = scenarioA"
    by (simp add: validAssertionsOf_def)
  have conf: "mergeConfidence scenarioA = 101 / 110"
    by (simp add: mergeConfidence_def scenarioA_def mkAssertion_def)
  have rest: "scenarioA \<noteq> [] \<and> Fact (hd scenarioA) = ''alice works at techcorp'' \<and>
      map Source scenarioA = [''linkedin'', ''website'', ''github''] \<and>
      hd (sort (map Timestamp scenarioA)) = 100"
    by (simp add: scenarioA_def mkAssertion_def)
  show ?thesis
    using rest
    by (simp add: canonicalOfGroup_def Let_def insertionSort_scenarioA fixtureRuntime_def valid conf
        generateCanonicalID_def marshalOrNil_def scenarioA_canonical_def)
qed

lemma canonicalsOf_scenarioA:
  "canonicalsOf (fixtureRuntime 200) (NewConsolidator ''ns'' None) (insertionSort rankLess)
     scenarioA_db = [Some scenarioA_canonical]"
  by (simp add: canonicalsOf_def Let_def getAllAssertions_scenarioA getContradictions_scenarioA
      groupAssertions_scenarioA canonicalOfGroup_scenarioA)

lemma Consolidate_scenarioA:
  "fst (Consolidate (fixtureRuntime 200) (NewConsolidator ''ns'' None) (insertionSort rankLess)
     scenarioA_db) = 1 \<and>
   entries (snd (Consolidate (fixtureRuntime 200) (NewConsolidator ''ns'' None)
     (insertionSort rankLess) scenarioA_db)) =
     entries scenarioA_db @
       [(''consolidation:ns:canonical:alice works at t'', SCanonical scenarioA_canonical)]"
  by (simp add: Consolidate_def canonicalsOf_scenarioA)
     (simp add: fixtureRuntime_def scenarioA_canonical_def db_Put_def scenarioA_db_def fixtureDb_def
        NewConsolidator_def)

text \<open>
  Claim C1.  An assertion added with an empty id is stored under, and with, the id made of the
  first 16 hexadecimal characters of SHA-256 over the JSON encoding of its fact followed by its
  source.  Every canonical fact computed by \<open>Consolidate\<close> carries the fact of the top-ranked
  surviving contributor of its group as \<open>merged_fact\<close>, and its id is the first 16 hexadecimal
  characters of SHA-256 over the JSON encoding of that fact; every entry that \<open>Consolidate\<close>
  adds to the store is such a canonical fact under the key of its id.
\<close>

theorem C1_deterministic_ids:
  assumes ok: "sortSliceOK rankLess srt"
  shows "(ID a = [] \<longrightarrow> Add rt c db a = Inr (aid, db') \<longrightarrow>
           (\<exists>data. jsonMarshal rt (Fact a) = Some data \<and>
                   aid = take 16 (sha256Hex rt (data @ Source a)) \<and>
                   map_of (entries db') (prefix c @ ''assertion:'' @ aid) =
                     Some (SAssertion (a\<lparr>ID := aid,
                             Timestamp := (if Timestamp a = 0 then timeNow rt else Timestamp a)\<rparr>)))) \<and>
         (Some cf \<in> set (canonicalsOf rt c srt db) \<longrightarrow>
           (\<exists>key grp. (key, grp) \<in> set (groupAssertions rt (getAllAssertions c db) []) \<and>
               validAssertionsOf (config c) (timeNow rt) (getContradictions c db) (srt grp) \<noteq> [] \<and>
               MergedFact cf =
                 Fact (hd (validAssertionsOf (config c) (timeNow rt) (getContradictions c db) (srt grp))) \<and>
               jsonMarshal rt (MergedFact cf) = Some key \<and>
               cfID cf = take 16 (sha256Hex rt key))) \<and>
         ((k, v) \<in> set (entries (snd (Consolidate rt c srt db))) \<longrightarrow> (k, v) \<notin> set (entries db) \<longrightarrow>
           (\<exists>cf'. Some cf' \<in> set (canonicalsOf rt c srt db) \<and>
                  k = prefix c @ ''canonical:'' @ cfID cf' \<and> v = SCanonical cf'))"
proof (intro conjI impI)
  assume "ID a = []" and add: "Add rt c db a = Inr (aid, db')"
  then show "\<exists>data. jsonMarshal rt (Fact a) = Some data \<and>
                   aid = take 16 (sha256Hex rt (data @ Source a)) \<and>
                   map_of (entries db') (prefix c @ ''assertion:'' @ aid) =
                     Some (SAssertion (a\<lparr>ID := aid,
                             Timestamp := (if Timestamp a = 0 then timeNow rt else Timestamp a)\<rparr>))"
    by (auto simp: Add_def Let_def generateAssertionID_def marshalOrNil_def db_Put_def
        map_of_putEntry split: option.splits sum.splits)
next
  assume "Some cf \<in> set (canonicalsOf rt c srt db)"
  then obtain key grp where
    grp: "(key, grp) \<in> set (groupAssertions rt (getAllAssertions c db) [])" and
    cf: "canonicalOfGroup rt (config c) srt (getContradictions c db) grp = Some cf"
    by (auto simp: canonicalsOf_def Let_def)
  define valid where
    "valid = validAssertionsOf (config c) (timeNow rt) (getContradictions c db) (srt grp)"
  have ne: "valid \<noteq> []" and idcf: "cfID cf = generateCanonicalID rt (hd valid)"
    and mf: "MergedFact cf = Fact (hd valid)"
    using canonicalOfGroup_Some [OF cf] by (auto simp: valid_def)
  have "hd valid \<in> set valid" using ne by simp
  then have "hd valid \<in> set (srt grp)" by (auto simp: valid_def validAssertionsOf_def)
  then have "hd valid \<in> set grp"
    using ok sortSliceSpec_set [of rankLess grp "srt grp"] by (simp add: sortSliceOK_def)
  then have "jsonMarshal rt (Fact (hd valid)) = Some key"
    using groupAssertions_marshal [OF grp] by simp
  then show "\<exists>key grp. (key, grp) \<in> set (groupAssertions rt (getAllAssertions c db) []) \<and>
               validAssertionsOf (config c) (timeNow rt) (getContradictions c db) (srt grp) \<noteq> [] \<and>
               MergedFact cf =
                 Fact (hd (validAssertionsOf (config c) (timeNow rt) (getContradictions c db) (srt grp))) \<and>
               jsonMarshal rt (MergedFact cf) = Some key \<and>
               cfID cf = take 16 (sha256Hex rt key)"
    using grp ne idcf mf
    by (intro exI [of _ key] exI [of _ grp])
       (simp add: valid_def generateCanonicalID_def marshalOrNil_def)
next
  assume "(k, v) \<in> set (entries (snd (Consolidate rt c srt db)))" and "(k, v) \<notin> set (entries db)"
  then show "\<exists>cf'. Some cf' \<in> set (canonicalsOf rt c srt db) \<and>
                  k = prefix c @ ''canonical:'' @ cfID cf' \<and> v = SCanonical cf'"
    using writeCanonicals_entries [of k v rt c "canonicalsOf rt c srt db" 0 db]
    by (auto simp: Consolidate_def)
qed

text \<open>Adding an assertion without an id to the store of scenario A, and consolidating that
  store.\<close>

theorem C1_deterministic_ids_witness:
  "sortSliceOK rankLess (insertionSort rankLess :: string RawAssertion list \<Rightarrow> _) \<and>
   ID newAssertion = [] \<and>
   map_sum (\<lambda>e. e) fst
       (Add (fixtureRuntime 200) (NewConsolidator ''ns'' None) scenarioA_db newAssertion)
     = Inr (take 16 (sha256Hex (fixtureRuntime 200) (''bob likes tea'' @ ''wiki''))) \<and>
   Some scenarioA_canonical \<in> set (canonicalsOf (fixtureRuntime 200)
       (NewConsolidator ''ns'' None) (insertionSort rankLess) scenarioA_db) \<and>
   cfID scenarioA_canonical = take 16 (sha256Hex (fixtureRuntime 200) (MergedFact scenarioA_canonical)) \<and>
   (''consolidation:ns:canonical:alice works at t'', SCanonical scenarioA_canonical)
     \<in> set (entries (snd (Consolidate (fixtureRuntime 200) (NewConsolidator ''ns'' None)
                 (insertionSort rankLess) scenarioA_db))) \<and>
   (''consolidation:ns:canonical:alice works at t'', SCanonical scenarioA_canonical)
     \<notin> set (entries scenarioA_db)"
proof -
  let ?rt = "fixtureRuntime 200" and ?c = "NewConsolidator ''ns'' None"
  let ?k = "''consolidation:ns:canonical:alice works at t''"
  have ok: "sortSliceOK rankLess (insertionSort rankLess :: string RawAssertion list \<Rightarrow> _)"
    by (rule insertionSort_rankLess_OK)
  have noid: "ID newAssertion = []" by (simp add: newAssertion_def mkAssertion_def)
  obtain aid db' where add: "Add ?rt ?c scenarioA_db newAssertion = Inr (aid, db')"
    by (simp add: Add_def Let_def fixtureRuntime_def db_Put_def scenarioA_db_def fixtureDb_def
        newAssertion_def mkAssertion_def)
  have can: "Some scenarioA_canonical \<in> set (canonicalsOf ?rt ?c (insertionSort rankLess) scenarioA_db)"
    by (simp add: canonicalsOf_scenarioA)
  have written: "(?k, SCanonical scenarioA_canonical)
     \<in> set (entries (snd (Consolidate ?rt ?c (insertionSort rankLess) scenarioA_db)))"
    by (simp add: Consolidate_scenarioA)
  have fresh: "(?k, SCanonical scenarioA_canonical) \<notin> set (entries scenarioA_db)"
    by (simp add: scenarioA_db_def fixtureDb_def)
  note inst = C1_deterministic_ids [OF ok, of newAssertion "?rt" "?c" scenarioA_db aid db'
      scenarioA_canonical "?k" "SCanonical scenarioA_canonical"]
  have "aid = take 16 (sha256Hex ?rt (''bob likes tea'' @ ''wiki''))"
    using inst noid add by (auto simp: fixtureRuntime_def newAssertion_def mkAssertion_def)
  moreover have "cfID scenarioA_canonical = take 16 (sha256Hex ?rt (MergedFact scenarioA_canonical))"
    using inst can by (auto simp: fixtureRuntime_def)
  ultimately show ?thesis using ok noid add can written fresh by simp
qed

section \<open>Explain\<close>

text \<open>When the read succeeds with no value, as for a key the store does not hold, decoding
  fails and \<open>Explain\<close> returns that error.\<close>

lemma Explain_missing_record:
  "db_Get db (prefix c @ ''canonical:'' @ factID) = Inr None \<Longrightarrow>
   Explain c db factID = Inl UnmarshalError"
  by (simp add: Explain_def)



section \<open>Configuration defaults\<close>

text \<open>
  Claim C9 as stated fails: a configuration that sets only \<open>lexical_weight\<close> is used as it is,
  with limit 0 and RRF constant 0, not 10 and 60.
\<close>

theorem C9_counterexample:
  "Limit (hrConfig (NewHybridRetriever ''ns'' (Some onlyLexicalWeight))) = 0 \<and>
   Limit (hrConfig (NewHybridRetriever ''ns'' (Some onlyLexicalWeight))) \<noteq> 10 \<and>
   RRFConstant (hrConfig (NewHybridRetriever ''ns'' (Some onlyLexicalWeight))) = 0 \<and>
   RRFConstant (hrConfig (NewHybridRetriever ''ns'' (Some onlyLexicalWeight))) \<noteq> 60"
  by (simp add: NewHybridRetriever_def onlyLexicalWeight_def)

text \<open>
  Claim C9, amended.  The documented defaults are applied as a whole and only when no
  configuration is supplied; a supplied configuration is kept field by field as given, zero
  values included.  The consolidator treats its configuration the same way.
\<close>

theorem C9_defaults_only_for_nil:
  "hrConfig (NewHybridRetriever ns None) =
     \<lparr>Limit = 10, LexicalWeight = 0.3, SemanticWeight = 0.7, RRFConstant = 60,
      PrefilterRatio = 3.0, UsePrefiltering = True\<rparr> \<and>
   hrConfig (NewHybridRetriever ns (Some cfg)) = cfg \<and>
   config (NewConsolidator ns None) =
     \<lparr>SimilarityThreshold = 0.85, UseTemporalUpdates = True, MaxConflictAge = 86400\<rparr> \<and>
   config (NewConsolidator ns (Some ccfg)) = ccfg"
  by (simp add: NewHybridRetriever_def NewConsolidator_def)

section \<open>Contradiction filter\<close>

text \<open>What the inner loop computes: only the first edge in scan order whose \<open>from\<close> is the
  assertion's id is consulted; an edge whose timestamp is not a number counts as active.\<close>

lemma isContradicted_first_edge:
  "isContradicted cfg now conts aid =
     (case find (\<lambda>cont. cont ''from'' = Some (JString aid)) conts of
        None \<Rightarrow> False
      | Some cont \<Rightarrow>
          (UseTemporalUpdates cfg \<longrightarrow>
             (case cont ''timestamp'' of
                Some (JNumber ts) \<Rightarrow> \<not> wrap64 (now - int64_of_float ts) > MaxConflictAge cfg
              | _ \<Rightarrow> True)))"
  by (induction conts) (auto simp: Let_def split: option.splits jsonv.splits)

lemma supersededTwice_entries:
  "supersededTwice = fixtureDb
     [(''consolidation:ns:assertion:a1'', SAssertion (mkAssertion ''a1'' ''alice is 32'' ''profile 2023'' 0.8 1000)),
      (''consolidation:ns:assertion:a2'', SAssertion (mkAssertion ''a2'' ''alice is 33'' ''profile 2024'' 0.95 1000)),
      (''consolidation:ns:contradiction:a1:a2'', SContradiction (mkEdge ''a1'' ''a2'' 1000)),
      (''consolidation:ns:assertion:a3'', SAssertion (mkAssertion ''a3'' ''alice is 34'' ''profile 2025'' 0.9 99000)),
      (''consolidation:ns:contradiction:a1:a3'', SContradiction (mkEdge ''a1'' ''a3'' 99000))]"
  by (simp add: supersededTwice_def Add_def AddWithContradiction_def fixtureRuntime_def fixtureDb_def
      NewConsolidator_def db_Put_def mkAssertion_def mkEdge_def Let_def)

lemma supersededTwice_scan:
  "getAllAssertions (NewConsolidator ''ns'' None) supersededTwice =
     [mkAssertion ''a1'' ''alice is 32'' ''profile 2023'' 0.8 1000,
      mkAssertion ''a2'' ''alice is 33'' ''profile 2024'' 0.95 1000,
      mkAssertion ''a3'' ''alice is 34'' ''profile 2025'' 0.9 99000] \<and>
   getContradictions (NewConsolidator ''ns'' None) supersededTwice = [edgeOld, edgeNew]"
  by (simp add: supersededTwice_entries getAllAssertions_def getContradictions_def ScanPrefix_def
      fixtureDb_def NewConsolidator_def List.map_filter_def edgeOld_def edgeNew_def)

lemma supersededTwice_canonicals:
  "map (map_option MergedFact)
     (canonicalsOf (fixtureRuntime 100000) (NewConsolidator ''ns'' None) (insertionSort rankLess)
        supersededTwice) = [Some ''alice is 32'', Some ''alice is 33'', Some ''alice is 34'']"
proof -
  have g: "groupAssertions (fixtureRuntime 100000)
      [mkAssertion ''a1'' ''alice is 32'' ''profile 2023'' 0.8 1000,
       mkAssertion ''a2'' ''alice is 33'' ''profile 2024'' 0.95 1000,
       mkAssertion ''a3'' ''alice is 34'' ''profile 2025'' 0.9 99000] [] =
     [(''alice is 32'', [mkAssertion ''a1'' ''alice is 32'' ''profile 2023'' 0.8 1000]),
      (''alice is 33'', [mkAssertion ''a2'' ''alice is 33'' ''profile 2024'' 0.95 1000]),
      (''alice is 34'', [mkAssertion ''a3'' ''alice is 34'' ''profile 2025'' 0.9 99000])]"
    by (simp add: fixtureRuntime_def mkAssertion_def)
  have v: "validAssertionsOf (config (NewConsolidator ''ns'' None)) 100000 [edgeOld, edgeNew]
      [mkAssertion i f s c t] = [mkAssertion i f s c t]" for i f s c t
    by (simp add: validAssertionsOf_def NewConsolidator_def edgeOld_def edgeNew_def mkEdge_def
        mkAssertion_def wrap64_def int64_of_float_def)
  show ?thesis
    by (simp add: canonicalsOf_def Let_def supersededTwice_scan g canonicalOfGroup_def
        insertionSort_def fixtureRuntime_def v)
       (simp add: mkAssertion_def)
qed

text \<open>
  Claim C2 at a failing input.  With temporal updates on and a window of 86400 seconds, at time
  100000, assertion \<open>a1\<close> has an expired edge (written at 1000) followed in scan order by an
  active edge (written at 99000), both with \<open>from = a1\<close>.  The claim excludes \<open>a1\<close>; the source
  stops at the first edge and keeps it.  With the two edges in the other order \<open>a1\<close> is
  excluded.  The store with these two edges is the one that \<open>Add\<close> and two calls of
  \<open>AddWithContradiction\<close> leave, and consolidating it emits a canonical fact for the fact of
  \<open>a1\<close>.
\<close>

theorem C2_first_edge_decides:
  "validAssertionsOf defaultConfig 100000 [edgeOld, edgeNew] [scenarioA ! 0] = [scenarioA ! 0] \<and>
   validAssertionsOf defaultConfig 100000 [edgeNew, edgeOld] [scenarioA ! 0] = [] \<and>
   edgeNew ''from'' = Some (JString (ID (scenarioA ! 0))) \<and>
   edgeNew ''timestamp'' = Some (JNumber 99000) \<and>
   UseTemporalUpdates defaultConfig \<and>
   100000 - 99000 \<le> MaxConflictAge defaultConfig \<and>
   getContradictions (NewConsolidator ''ns'' None) supersededTwice = [edgeOld, edgeNew] \<and>
   map (map_option MergedFact)
     (canonicalsOf (fixtureRuntime 100000) (NewConsolidator ''ns'' None) (insertionSort rankLess)
        supersededTwice) = [Some ''alice is 32'', Some ''alice is 33'', Some ''alice is 34'']"
  using supersededTwice_scan supersededTwice_canonicals
  by (simp add: validAssertionsOf_def defaultConfig_def NewConsolidator_def edgeOld_def edgeNew_def
      mkEdge_def scenarioA_def mkAssertion_def wrap64_def int64_of_float_def)

section \<open>Ranking within a group\<close>







section \<open>BM25 index and score\<close>

lemma countUnique_lookup:
  "lookupInt (countUnique ts seen tdf) t =
     lookupInt tdf t + (if t \<in> set ts \<and> \<not> seen t then 1 else 0)"
proof (induction ts arbitrary: seen tdf)
  case Nil
  then show ?case by simp
next
  case (Cons u ts)
  show ?case
  proof (cases "seen u")
    case True
    have "lookupInt (countUnique (u # ts) seen tdf) t = lookupInt (countUnique ts seen tdf) t"
      using True by simp
    also have "\<dots> = lookupInt tdf t + (if t \<in> set ts \<and> \<not> seen t then 1 else 0)"
      by (rule Cons.IH)
    finally show ?thesis using True by auto
  next
    case False
    define seen' where "seen' = seen(u := True)"
    define tdf' where "tdf' = tdf(u \<mapsto> lookupInt tdf u + 1)"
    have "lookupInt (countUnique (u # ts) seen tdf) t = lookupInt (countUnique ts seen' tdf') t"
      using False by (simp add: seen'_def tdf'_def)
    also have "\<dots> = lookupInt tdf' t + (if t \<in> set ts \<and> \<not> seen' t then 1 else 0)"
      by (rule Cons.IH)
    also have "lookupInt tdf' t = lookupInt tdf t + (if t = u then 1 else 0)"
      by (simp add: tdf'_def lookupInt_def)
    finally show ?thesis using False by (auto simp: seen'_def)
  qed
qed

lemma indexLoop_fields:
  "documents (fst (indexLoop docs (bm, tot))) = documents bm \<and>
   documentCount (fst (indexLoop docs (bm, tot))) = documentCount bm \<and>
   avgDocLength (fst (indexLoop docs (bm, tot))) = avgDocLength bm \<and>
   k1 (fst (indexLoop docs (bm, tot))) = k1 bm \<and> b (fst (indexLoop docs (bm, tot))) = b bm"
  by (induction docs arbitrary: bm tot) (auto simp: Let_def)

lemma indexLoop_total: "snd (indexLoop docs (bm, tot)) = tot + totalLen docs"
  by (induction docs arbitrary: bm tot) (auto simp: Let_def totalLen_def docLen_def)

lemma indexLoop_termDocFreq:
  "lookupInt (termDocFreq (fst (indexLoop docs (bm, tot)))) t =
     lookupInt (termDocFreq bm) t + docFreq docs t"
proof (induction docs arbitrary: bm tot)
  case Nil
  then show ?case by (simp add: docFreq_def)
next
  case (Cons d docs)
  obtain did content where d: "d = (did, content)" by (cases d)
  show ?case
    using Cons.IH d by (simp add: Let_def countUnique_lookup docFreq_def)
qed

lemma indexLoop_documentLengths:
  "distinct (map fst docs) \<Longrightarrow>
   documentLengths (fst (indexLoop docs (bm, tot))) did =
     (case map_of docs did of Some text \<Rightarrow> Some (docLen text) | None \<Rightarrow> documentLengths bm did)"
proof (induction docs arbitrary: bm tot)
  case Nil
  then show ?case by simp
next
  case (Cons d docs)
  obtain did' content where d: "d = (did', content)" by (cases d)
  have notin: "map_of docs did' = None" using Cons.prems d by (simp add: map_of_eq_None_iff)
  show ?case
    using Cons.IH Cons.prems d notin by (auto simp: Let_def docLen_def split: option.splits)
qed

text \<open>What one call of \<open>IndexDocuments\<close> leaves, for any scorer it starts from: the documents
  and their count are those of the call, but each document frequency is added to the one
  already stored, and lengths stored for other documents stay.\<close>

lemma BM25_IndexDocuments_stats:
  assumes "distinct (map fst docs)"
  shows "documents (BM25_IndexDocuments bm docs) = map_of docs \<and>
         documentCount (BM25_IndexDocuments bm docs) = int (length docs) \<and>
         k1 (BM25_IndexDocuments bm docs) = k1 bm \<and> b (BM25_IndexDocuments bm docs) = b bm \<and>
         lookupInt (termDocFreq (BM25_IndexDocuments bm docs)) t =
           lookupInt (termDocFreq bm) t + docFreq docs t \<and>
         documentLengths (BM25_IndexDocuments bm docs) did =
           (case map_of docs did of Some text \<Rightarrow> Some (docLen text)
            | None \<Rightarrow> documentLengths bm did) \<and>
         avgDocLength (BM25_IndexDocuments bm docs) =
           (if docs = [] then avgDocLength bm
            else real_of_int (totalLen docs) / real (length docs))"
proof -
  define bm0 where "bm0 = bm\<lparr>documents := map_of docs, documentCount := int (length docs)\<rparr>"
  obtain bm' tot where loop: "indexLoop docs (bm0, 0) = (bm', tot)" by (cases "indexLoop docs (bm0, 0)")
  have f: "documents bm' = map_of docs" "documentCount bm' = int (length docs)"
    "avgDocLength bm' = avgDocLength bm" "k1 bm' = k1 bm" "b bm' = b bm"
    using indexLoop_fields [of docs bm0 0] loop by (simp_all add: bm0_def)
  have tot: "tot = totalLen docs" using indexLoop_total [of docs bm0 0] loop by simp
  have df: "lookupInt (termDocFreq bm') t = lookupInt (termDocFreq bm) t + docFreq docs t"
    using indexLoop_termDocFreq [of docs bm0 0 t] loop by (simp add: bm0_def)
  have dl: "documentLengths bm' did =
      (case map_of docs did of Some text \<Rightarrow> Some (docLen text) | None \<Rightarrow> documentLengths bm did)"
  proof -
    have "documentLengths bm0 did = documentLengths bm did" by (simp add: bm0_def)
    then show ?thesis
      using indexLoop_documentLengths [OF assms, of bm0 0 did] loop
      by (simp split: option.splits)
  qed
  have res: "BM25_IndexDocuments bm docs =
      (if documentCount bm' > 0
       then bm'\<lparr>avgDocLength := real_of_int tot / real_of_int (documentCount bm')\<rparr> else bm')"
    using loop by (simp add: BM25_IndexDocuments_def bm0_def)
  have pos: "documentCount bm' > 0 \<longleftrightarrow> docs \<noteq> []" using f(2) by auto
  show ?thesis
  proof (cases "docs = []")
    case True
    then have "BM25_IndexDocuments bm docs = bm'" using res pos by simp
    then show ?thesis using f df dl True by simp
  next
    case False
    then have "BM25_IndexDocuments bm docs =
        bm'\<lparr>avgDocLength := real_of_int (totalLen docs) / real (length docs)\<rparr>"
      using res pos tot f(2) by simp
    then show ?thesis using f df dl False by simp
  qed
qed


lemma lookupInt_empty: "lookupInt Map.empty k = 0"
  by (simp add: lookupInt_def)

lemma countTerms_lookup: "lookupInt (countTerms ts m) t = lookupInt m t + int (count_list ts t)"
proof (induction ts arbitrary: m)
  case Nil
  then show ?case by simp
next
  case (Cons u ts)
  define m' where "m' = m(u \<mapsto> lookupInt m u + 1)"
  have "lookupInt (countTerms (u # ts) m) t = lookupInt (countTerms ts m') t"
    by (simp add: m'_def)
  also have "\<dots> = lookupInt m' t + int (count_list ts t)" by (rule Cons.IH)
  also have "lookupInt m' t = lookupInt m t + (if t = u then 1 else 0)"
    by (simp add: m'_def lookupInt_def)
  finally show ?case by auto
qed

lemma scoreLoop_sum:
  "scoreLoop bm tfm dl ts s = s + (\<Sum>t \<leftarrow> ts. termContribution bm tfm dl t)"
  by (induction ts arbitrary: s) (auto simp: algebra_simps)

lemma docFreq_bounds: "0 \<le> docFreq docs t \<and> docFreq docs t \<le> int (length docs)"
  by (simp add: docFreq_def)

lemma totalLen_nonneg: "0 \<le> totalLen docs"
  by (induction docs) (auto simp: totalLen_def docLen_def)

lemma docFreq_totalLen: "docFreq docs t \<noteq> 0 \<Longrightarrow> 0 < totalLen docs"
proof (induction docs)
  case Nil
  then show ?case by (simp add: docFreq_def)
next
  case (Cons d docs)
  obtain did content where d: "d = (did, content)" by (cases d)
  show ?case
  proof (cases "t \<in> set (tokenize content)")
    case True
    then have "0 < docLen content" by (cases "tokenize content") (auto simp: docLen_def)
    then show ?thesis using totalLen_nonneg [of docs] d by (simp add: totalLen_def)
  next
    case False
    then have "docFreq docs t \<noteq> 0" using Cons.prems d by (simp add: docFreq_def)
    then have "0 < totalLen docs" by (rule Cons.IH)
    then show ?thesis using d by (simp add: totalLen_def docLen_def)
  qed
qed

lemma specTerm_nonneg: "0 \<le> specTerm docs content t"
proof (cases "docFreq docs t = 0")
  case True
  then show ?thesis by (simp add: specTerm_def)
next
  case False
  define df where "df = real_of_int (docFreq docs t)"
  define n where "n = real (length docs)"
  define tf where "tf = real_of_int (termFreq content t)"
  define r where "r = real_of_int (docLen content) / (real_of_int (totalLen docs) / n)"
  have df: "0 < df" "df \<le> n" using docFreq_bounds [of docs t] False by (auto simp: df_def n_def)
  have tf: "0 \<le> tf" by (simp add: tf_def termFreq_def)
  have r: "0 \<le> r" using totalLen_nonneg [of docs] by (simp add: r_def n_def docLen_def)
  have "0 \<le> (n - df + 0.5) / (df + 0.5)" using df by simp
  then have idf: "0 \<le> ln ((n - df + 0.5) / (df + 0.5) + 1)" by simp
  have den: "0 < tf + 1.5 * (1 - 0.75 + 0.75 * r)" using tf r by (simp add: add_nonneg_pos)
  have "0 \<le> ln ((n - df + 0.5) / (df + 0.5) + 1) * (tf * (1.5 + 1)) / (tf + 1.5 * (1 - 0.75 + 0.75 * r))"
    using idf tf den by (intro divide_nonneg_pos mult_nonneg_nonneg) simp_all
  then show ?thesis
    using False by (simp add: specTerm_def specIdf_def df_def n_def tf_def r_def)
qed

text \<open>On a scorer that has indexed once, the score is the formula of the specification over
  the statistics of the document set, every term contributes a non-negative amount, and the
  average length is positive wherever a term with positive document frequency is scored.\<close>

lemma Score_first_index:
  assumes d: "distinct (map fst docs)" and doc: "map_of docs did = Some content"
  shows "Score (BM25_IndexDocuments (NewBM25Scorer 1.5 0.75) docs) query did =
           (\<Sum>t \<leftarrow> tokenize query. specTerm docs content t) \<and>
         (\<forall>t. 0 \<le> specTerm docs content t) \<and>
         (\<forall>t. docFreq docs t \<noteq> 0 \<longrightarrow> 0 < real_of_int (totalLen docs) / real (length docs))"
proof -
  define bm where "bm = BM25_IndexDocuments (NewBM25Scorer 1.5 0.75) docs"
  have ne: "docs \<noteq> []" using doc by auto
  have stats: "documents bm = map_of docs" "documentCount bm = int (length docs)"
    "k1 bm = 1.5" "b bm = 0.75" "\<And>t. lookupInt (termDocFreq bm) t = docFreq docs t"
    "documentLengths bm did = Some (docLen content)"
    "avgDocLength bm = real_of_int (totalLen docs) / real (length docs)"
    using BM25_IndexDocuments_stats [OF d, of "NewBM25Scorer 1.5 0.75" _ did] doc ne
    by (simp_all add: bm_def NewBM25Scorer_def lookupInt_def)
  have tc: "termContribution bm (countTerms (tokenize content) Map.empty) (real_of_int (docLen content)) t
      = specTerm docs content t" for t
    by (simp add: termContribution_def Let_def stats countTerms_lookup specTerm_def specIdf_def
        termFreq_def lookupInt_empty)
  have "Score bm query did = (\<Sum>t \<leftarrow> tokenize query. specTerm docs content t)"
  proof -
    have "lookupInt (documentLengths bm) did = docLen content"
      using stats(6) by (simp add: lookupInt_def)
    moreover have "termContribution bm (countTerms (tokenize content) Map.empty)
        (real_of_int (docLen content)) = specTerm docs content"
      by (rule ext) (rule tc)
    ultimately show ?thesis by (simp add: Score_def Let_def stats doc scoreLoop_sum)
  qed
  moreover have "0 < real_of_int (totalLen docs) / real (length docs)" if "docFreq docs t \<noteq> 0" for t
    using docFreq_totalLen [OF that] ne by simp
  ultimately show ?thesis using specTerm_nonneg by (auto simp: bm_def)
qed

lemma tokenize_alice: "tokenize ''alice'' = [''alice'']"
  by (simp add: tokenize_def Fields_def toLowerChar_def isSpace_def Trim_def cutset_def)

lemma indexedOnce_value:
  "indexedOnce = (None, (NewHybridRetriever ''ns'' None)\<lparr>bm25 := aliceScorer 1\<rparr>, aliceDb)"
  by (simp add: indexedOnce_def HR_IndexDocuments_def aliceDocs_def fixtureDb_def db_Put_def
      NewHybridRetriever_def textMapOf_def List.map_filter_def BM25_IndexDocuments_def
      NewBM25Scorer_def tokenize_alice lookupInt_def aliceScorer_def aliceDb_def)

lemma indexedTwice_value:
  "indexedTwice = (None, (NewHybridRetriever ''ns'' None)\<lparr>bm25 := aliceScorer 2\<rparr>, aliceDb)"
  by (simp add: indexedTwice_def indexedOnce_value HR_IndexDocuments_def aliceDocs_def fixtureDb_def
      db_Put_def NewHybridRetriever_def textMapOf_def List.map_filter_def BM25_IndexDocuments_def
      tokenize_alice lookupInt_def aliceScorer_def aliceDb_def)

text \<open>
  Claim C3 at a failing input.  A new retriever indexes the one document \<open>d1\<close> with text
  \<open>alice\<close>, then indexes the same document again.  Both calls succeed.  After the second call
  the corpus size is 1 but the document frequency of \<open>alice\<close> is 2, where a rebuild from scratch
  over the indexed document gives 1: \<open>termDocFreq\<close> (like \<open>documentLengths\<close>) is never reset, only
  \<open>documents\<close> and \<open>documentCount\<close> are replaced.
\<close>

theorem C3_reindex_residue:
  "fst indexedTwice = None \<and>
   documentCount (bm25 (fst (snd indexedTwice))) = 1 \<and>
   termDocFreq (bm25 (fst (snd indexedTwice))) ''alice'' = Some 2 \<and>
   termDocFreq (BM25_IndexDocuments (NewBM25Scorer 1.5 0.75) (textMapOf aliceDocs)) ''alice'' = Some 1"
  by (simp add: indexedTwice_value aliceScorer_def BM25_IndexDocuments_def NewBM25Scorer_def
      textMapOf_def List.map_filter_def aliceDocs_def tokenize_alice lookupInt_def)

text \<open>
  Claim C6 at the same input.  With \<open>N = 1\<close> and the stored document frequency 2 the
  inverse document frequency is \<open>ln ((1 - 2 + 0.5) / (2 + 0.5) + 1) = ln 0.8\<close>, the term
  frequency factor is 1, and the score of \<open>d1\<close> for the query \<open>alice\<close> is negative.
\<close>

theorem C6_negative_contribution:
  "Score (bm25 (fst (snd indexedTwice))) ''alice'' ''d1'' = ln (4 / 5) \<and>
   Score (bm25 (fst (snd indexedTwice))) ''alice'' ''d1'' < 0 \<and>
   termContribution (bm25 (fst (snd indexedTwice))) [''alice'' \<mapsto> 1] 1 ''alice'' < 0"
proof -
  have bm: "bm25 (fst (snd indexedTwice)) = aliceScorer 2"
    by (simp add: indexedTwice_value)
  have c: "termContribution (aliceScorer 2) [''alice'' \<mapsto> 1] 1 ''alice'' = ln (4 / 5)"
    by (simp add: termContribution_def lookupInt_def Let_def aliceScorer_def)
  have s: "Score (aliceScorer 2) ''alice'' ''d1'' =
        termContribution (aliceScorer 2) [''alice'' \<mapsto> 1] 1 ''alice''"
    by (simp add: Score_def tokenize_alice lookupInt_def Let_def aliceScorer_def)
  have neg: "ln (4 / 5 :: real) < 0" by simp
  show ?thesis using c s neg by (simp add: bm)
qed

section \<open>Ranks and reciprocal rank fusion\<close>



























section \<open>Pre-filter\<close>






end
